theory Spec2Isabelle
  imports Complex_Main "HOL-Library.Log_Nat" "HOL-Library.Multiset"
begin

section \<open>Python values reaching the \<open>Numbers\<close> class\<close>

text \<open>
  The methods of \<open>Numbers\<close> (\<open>bibliotecas/calc_numbers.py\<close>) take a parameter annotated
  \<open>any\<close>; the values that reach them are decoded JSON. A \<open>str\<close> is the list of its code
  points (code points below 256), an \<open>int\<close> is unbounded, and a \<open>float\<close> is a binary64
  value: finite (a rational number; \<open>-0.0\<close> and \<open>0.0\<close> are both \<open>Fin 0\<close>), an infinity,
  or NaN.
\<close>

datatype pyfloat = Fin rat | PosInf | NegInf | NaN

datatype pyval =
    PNone
  | PBool bool
  | PInt int
  | PFloat pyfloat
  | PStr string
  | PList "pyval list"
  | PDict "(string \<times> pyval) list"

text \<open>\<open>type(x).__name__\<close>\<close>

fun type_name :: "pyval \<Rightarrow> string" where
  "type_name PNone = ''NoneType''"
| "type_name (PBool _) = ''bool''"
| "type_name (PInt _) = ''int''"
| "type_name (PFloat _) = ''float''"
| "type_name (PStr _) = ''str''"
| "type_name (PList _) = ''list''"
| "type_name (PDict _) = ''dict''"

text \<open>
  \<open>isinstance(x, int)\<close>: \<open>bool\<close> is a subclass of \<open>int\<close>, so \<open>True\<close> and \<open>False\<close> are
  instances of \<open>int\<close>, with the values 1 and 0 in arithmetic.
\<close>

fun isinstance_int :: "pyval \<Rightarrow> bool" where
  "isinstance_int (PInt _) = True"
| "isinstance_int (PBool _) = True"
| "isinstance_int _ = False"

fun int_value :: "pyval \<Rightarrow> int" where
  "int_value (PInt n) = n"
| "int_value (PBool b) = (if b then 1 else 0)"
| "int_value _ = 0"

text \<open>\<open>isinstance(x, (float, str))\<close>\<close>

fun isinstance_float_str :: "pyval \<Rightarrow> bool" where
  "isinstance_float_str (PFloat _) = True"
| "isinstance_float_str (PStr _) = True"
| "isinstance_float_str _ = False"

section \<open>Exceptions\<close>

text \<open>
  An exception is its class and its message. The messages of the library are f-strings;
  each template is a constructor carrying the values interpolated into it (operation name,
  1-based position, the item, the type name). The last constructors are the messages of
  the built-ins \<open>float\<close>, \<open>int\<close>, \<open>/\<close> and \<open>str\<close>.
\<close>

datatype message =
    NotAList string string
  | ListIsNone string
  | ListIsEmpty string
  | ElemIsNone string nat
  | ElemLosesInformation string nat pyval
  | ElemNotConvertible string nat pyval
  | ElemWrongType string nat pyval string
  | CouldNotConvertToFloat pyval
  | FloatArgumentType pyval
  | IntTooLargeForFloat
  | CannotConvertNaNToInteger
  | CannotConvertInfinityToInteger
  | DivisionResultTooLarge
  | DivisionByZero
  | ExceedsDigitLimit
  | MaximumRecursionDepth

datatype exn =
    TypeError message
  | ValueError message
  | OverflowError message
  | ZeroDivisionError message
  | RecursionError message

section \<open>The built-ins the library calls\<close>

subsection \<open>Rounding to binary64\<close>

definition pow2 :: "int \<Rightarrow> rat" where
  "pow2 k = (if 0 \<le> k then 2 ^ nat k else 1 / 2 ^ nat (- k))"

text \<open>\<open>floor_log2 q\<close> is the \<open>k\<close> with \<open>2^k \<le> q < 2^(k+1)\<close>, for \<open>q > 0\<close>.\<close>

definition floor_log2 :: "rat \<Rightarrow> int" where
  "floor_log2 q = (if 1 \<le> q then bitlen \<lfloor>q\<rfloor> - 1 else - bitlen (\<lceil>1 / q\<rceil> - 1))"

definition round_half_even :: "rat \<Rightarrow> int" where
  "round_half_even r =
     (let f = \<lfloor>r\<rfloor>; d = r - of_int f
      in if d < 1 / 2 then f
         else if 1 / 2 < d then f + 1
         else if even f then f else f + 1)"

text \<open>
  The binary64 value nearest to a positive rational, ties to even: 53 significant bits,
  the least exponent of the last bit is \<open>-1074\<close> (subnormal numbers), and a result of
  \<open>2^1024\<close> or more is infinite.
\<close>

definition round_double_pos :: "rat \<Rightarrow> pyfloat" where
  "round_double_pos q =
     (let e = max (floor_log2 q - 52) (- 1074);
          m = round_half_even (q / pow2 e);
          v = of_int m * pow2 e
      in if pow2 1024 \<le> v then PosInf else Fin v)"

fun negate :: "pyfloat \<Rightarrow> pyfloat" where
  "negate (Fin q) = Fin (- q)"
| "negate PosInf = NegInf"
| "negate NegInf = PosInf"
| "negate NaN = NaN"

definition round_double :: "rat \<Rightarrow> pyfloat" where
  "round_double q =
     (if q = 0 then Fin 0
      else if 0 < q then round_double_pos q
      else negate (round_double_pos (- q)))"

subsection \<open>\<open>float(str)\<close>\<close>

text \<open>
  \<open>float\<close> of a string: white space is stripped at both ends (the ASCII white space, and
  the two other white-space code points below 256, which CPython first turns into
  blanks), an underscore is allowed between two digits only, and what remains is
  \<open>[sign] (inf | infinity | nan)\<close> in any letter case, or
  \<open>[sign] (digits [. [digits]] | . digits) [(e | E) [sign] digits]\<close>. The value is
  rounded to binary64. Anything else is a \<open>ValueError\<close>.
\<close>

definition py_isspace :: "char \<Rightarrow> bool" where
  "py_isspace c \<longleftrightarrow>
     c \<in> set [CHR 0x20, CHR 0x09, CHR 0x0A, CHR 0x0B, CHR 0x0C, CHR 0x0D, CHR 0x85, CHR 0xA0]"

definition is_digit :: "char \<Rightarrow> bool" where
  "is_digit c \<longleftrightarrow> 48 \<le> (of_char c :: nat) \<and> (of_char c :: nat) \<le> 57"

definition digit_value :: "char \<Rightarrow> int" where
  "digit_value c = of_char c - 48"

definition strip :: "string \<Rightarrow> string" where
  "strip s = rev (dropWhile py_isspace (rev (dropWhile py_isspace s)))"

text \<open>Removing the underscores; \<open>prev\<close> is the preceding character (NUL at the start).\<close>

fun remove_underscores :: "char \<Rightarrow> string \<Rightarrow> string option" where
  "remove_underscores prev [] = (if prev = CHR ''_'' then None else Some [])"
| "remove_underscores prev (c # cs) =
     (if c = CHR ''_'' then
        (if is_digit prev then remove_underscores c cs else None)
      else if prev = CHR ''_'' \<and> \<not> is_digit c then None
      else map_option ((#) c) (remove_underscores c cs))"

definition digits_value :: "string \<Rightarrow> int" where
  "digits_value ds = foldl (\<lambda>acc c. 10 * acc + digit_value c) 0 ds"

definition to_lower :: "char \<Rightarrow> char" where
  "to_lower c =
     (if 65 \<le> (of_char c :: nat) \<and> (of_char c :: nat) \<le> 90
      then char_of (of_char c + (32 :: nat)) else c)"

text \<open>The exponent part: nothing, or \<open>e\<close> or \<open>E\<close>, an optional sign and at least one digit.\<close>

definition parse_exponent :: "string \<Rightarrow> int option" where
  "parse_exponent s =
     (case s of
        [] \<Rightarrow> Some 0
      | c # t \<Rightarrow>
          if c = CHR ''e'' \<or> c = CHR ''E'' then
            (let neg = (t \<noteq> [] \<and> hd t = CHR ''-'');
                 ds = (if t \<noteq> [] \<and> (hd t = CHR ''-'' \<or> hd t = CHR ''+'') then tl t else t)
             in if ds \<noteq> [] \<and> list_all is_digit ds
                then Some (if neg then - digits_value ds else digits_value ds)
                else None)
          else None)"

text \<open>An unsigned decimal number, as the rational it denotes.\<close>

definition parse_decimal :: "string \<Rightarrow> rat option" where
  "parse_decimal s =
     (let ip = takeWhile is_digit s;
          r1 = dropWhile is_digit s;
          fp = (if r1 \<noteq> [] \<and> hd r1 = CHR ''.'' then takeWhile is_digit (tl r1) else []);
          r2 = (if r1 \<noteq> [] \<and> hd r1 = CHR ''.'' then dropWhile is_digit (tl r1) else r1)
      in if ip = [] \<and> fp = [] then None
         else (case parse_exponent r2 of
                 None \<Rightarrow> None
               | Some ex \<Rightarrow>
                   Some (of_int (digits_value (ip @ fp)) * 10 powi (ex - int (length fp)))))"

definition parse_unsigned :: "string \<Rightarrow> pyfloat option" where
  "parse_unsigned s =
     (if map to_lower s = ''inf'' \<or> map to_lower s = ''infinity'' then Some PosInf
      else if map to_lower s = ''nan'' then Some NaN
      else map_option round_double (parse_decimal s))"

definition parse_float :: "string \<Rightarrow> pyfloat option" where
  "parse_float s =
     (case remove_underscores (CHR 0x00) (strip s) of
        None \<Rightarrow> None
      | Some t \<Rightarrow>
          (case t of
             [] \<Rightarrow> None
           | c # u \<Rightarrow>
               if c = CHR ''-'' then map_option negate (parse_unsigned u)
               else if c = CHR ''+'' then parse_unsigned u
               else parse_unsigned t))"

subsection \<open>\<open>float\<close>, \<open>int\<close>, comparison and true division\<close>

text \<open>\<open>float(x)\<close>\<close>

fun py_float :: "pyval \<Rightarrow> exn + pyfloat" where
  "py_float (PFloat f) = Inr f"
| "py_float (PStr s) =
     (case parse_float s of
        None \<Rightarrow> Inl (ValueError (CouldNotConvertToFloat (PStr s)))
      | Some f \<Rightarrow> Inr f)"
| "py_float (PInt n) =
     (case round_double (of_int n) of
        Fin q \<Rightarrow> Inr (Fin q)
      | _ \<Rightarrow> Inl (OverflowError IntTooLargeForFloat))"
| "py_float (PBool b) = Inr (Fin (if b then 1 else 0))"
| "py_float v = Inl (TypeError (FloatArgumentType v))"

text \<open>\<open>int(f)\<close> of a float: truncation towards zero.\<close>

fun py_int :: "pyfloat \<Rightarrow> exn + int" where
  "py_int (Fin q) = Inr (if 0 \<le> q then \<lfloor>q\<rfloor> else \<lceil>q\<rceil>)"
| "py_int NaN = Inl (ValueError CannotConvertNaNToInteger)"
| "py_int _ = Inl (OverflowError CannotConvertInfinityToInteger)"

text \<open>\<open>n != f\<close> of an int and a float compares the two numbers exactly.\<close>

fun int_ne_float :: "int \<Rightarrow> pyfloat \<Rightarrow> bool" where
  "int_ne_float n (Fin q) = (of_int n \<noteq> q)"
| "int_ne_float n _ = True"

text \<open>\<open>a / b\<close> of two ints: the exact quotient, rounded once.\<close>

definition py_truediv :: "int \<Rightarrow> int \<Rightarrow> exn + pyfloat" where
  "py_truediv a b =
     (if b = 0 then Inl (ZeroDivisionError DivisionByZero)
      else (case round_double (of_int a / of_int b) of
              Fin q \<Rightarrow> Inr (Fin q)
            | _ \<Rightarrow> Inl (OverflowError DivisionResultTooLarge)))"

subsection \<open>\<open>str\<close> of an element, inside an f-string\<close>

text \<open>
  Two settings of the running interpreter decide whether the text of a value can be
  produced: the limit on the decimal digits of an \<open>int\<close> turned into a string
  (\<open>sys.get_int_max_str_digits()\<close>, where 0 means no limit), and the number of nested
  calls of \<open>repr\<close> that the recursion limit still allows where the library runs.
\<close>

record interpreter =
  int_max_str_digits :: nat
  repr_depth :: nat

text \<open>The defaults of CPython 3.11: 4300 digits, and the recursion limit of 1000.\<close>

definition cpython_defaults :: interpreter where
  "cpython_defaults = \<lparr>int_max_str_digits = 4300, repr_depth = 1000\<rparr>"

text \<open>The first exception of a sequence of evaluations, in their order.\<close>

fun first_raised :: "exn option list \<Rightarrow> exn option" where
  "first_raised [] = None"
| "first_raised (Some e # _) = Some e"
| "first_raised (None # rest) = first_raised rest"

text \<open>
  The exception that \<open>repr(v)\<close> raises, if any. Every call of \<open>repr\<close> needs one level
  of recursion; an \<open>int\<close> of more decimal digits than the limit raises \<open>ValueError\<close>;
  a list or a dict calls \<open>repr\<close> on its elements from left to right.
\<close>

fun repr_raises :: "nat \<Rightarrow> nat \<Rightarrow> pyval \<Rightarrow> exn option" where
  "repr_raises limit depth (PInt n) =
     (if depth = 0 then Some (RecursionError MaximumRecursionDepth)
      else if limit \<noteq> 0 \<and> 10 ^ limit \<le> \<bar>n\<bar> then Some (ValueError ExceedsDigitLimit)
      else None)"
| "repr_raises limit depth (PList xs) =
     (if depth = 0 then Some (RecursionError MaximumRecursionDepth)
      else first_raised (map (repr_raises limit (depth - 1)) xs))"
| "repr_raises limit depth (PDict kvs) =
     (if depth = 0 then Some (RecursionError MaximumRecursionDepth)
      else first_raised (map (\<lambda>kv. repr_raises limit (depth - 1) (snd kv)) kvs))"
| "repr_raises limit depth v =
     (if depth = 0 then Some (RecursionError MaximumRecursionDepth) else None)"

text \<open>
  \<open>'{item}'\<close> in an f-string is \<open>str(item)\<close>, which for a list or a dict is
  \<open>repr(item)\<close>.
\<close>

definition format_item :: "interpreter \<Rightarrow> pyval \<Rightarrow> exn option" where
  "format_item ip item = repr_raises (int_max_str_digits ip) (repr_depth ip) item"

section \<open>The class \<open>Numbers\<close>\<close>

text \<open>
  The two operation names the class passes: \<open>soma\<close>, and the name of the average,
  whose second character is the e with an acute accent, the code point 0xE9.
\<close>

definition media :: string where
  "media = [CHR ''m'', CHR 0xE9, CHR ''d'', CHR ''i'', CHR ''a'']"

definition soma :: string where
  "soma = ''soma''"

text \<open>
  \<open>_validate_input_list\<close>. The test \<open>isinstance(data, list)\<close> is the case distinction;
  the test \<open>data is None\<close> comes after it in the source.
\<close>

definition validate_input_list :: "pyval \<Rightarrow> string \<Rightarrow> exn + pyval list" where
  "validate_input_list data operation_name =
     (case data of
        PList items \<Rightarrow>
          if data = PNone then Inl (ValueError (ListIsNone operation_name))
          else if items = [] \<and> operation_name = soma
            then Inl (ValueError (ListIsEmpty operation_name))
          else if items = [] \<and> operation_name = media then Inr []
          else Inr items
      | _ \<Rightarrow> Inl (TypeError (NotAList operation_name (type_name data))))"

text \<open>
  The body of the inner \<open>try\<close> of \<open>_validate_integer_list\<close>:
  \<open>integer_item = int(float(item))\<close>, then the comparison with \<open>float(item)\<close>.
\<close>

definition conversion_attempt :: "string \<Rightarrow> nat \<Rightarrow> pyval \<Rightarrow> exn + int" where
  "conversion_attempt operation_name index item =
     (case py_float item of
        Inl e \<Rightarrow> Inl e
      | Inr f \<Rightarrow>
          (case py_int f of
             Inl e \<Rightarrow> Inl e
           | Inr integer_item \<Rightarrow>
               (case py_float item of
                  Inl e \<Rightarrow> Inl e
                | Inr f' \<Rightarrow>
                    if int_ne_float integer_item f'
                    then Inl (ValueError (ElemLosesInformation operation_name (index + 1) item))
                    else Inr integer_item)))"

text \<open>
  The inner \<open>try\<close> with its handler \<open>except ValueError\<close>: every \<open>ValueError\<close> raised in the
  body is replaced; an exception of another class passes.
\<close>

definition convert_item :: "string \<Rightarrow> nat \<Rightarrow> pyval \<Rightarrow> exn + int" where
  "convert_item operation_name index item =
     (case conversion_attempt operation_name index item of
        Inl (ValueError _) \<Rightarrow>
          Inl (ValueError (ElemNotConvertible operation_name (index + 1) item))
      | Inl e \<Rightarrow> Inl e
      | Inr integer_item \<Rightarrow> Inr integer_item)"

text \<open>
  The loop \<open>for index, item in enumerate(validated_list)\<close>. The messages of the inner
  \<open>try\<close> format a float or a string, which never raises; the message of the last branch
  formats an element of any other type, and an exception of that formatting is raised
  in place of the \<open>ValueError\<close> under construction.
\<close>

fun validate_elements ::
  "interpreter \<Rightarrow> string \<Rightarrow> nat \<Rightarrow> pyval list \<Rightarrow> int list \<Rightarrow> exn + int list" where
  "validate_elements ip operation_name index [] integer_list = Inr integer_list"
| "validate_elements ip operation_name index (item # rest) integer_list =
     (if item = PNone then Inl (ValueError (ElemIsNone operation_name (index + 1)))
      else if isinstance_int item
        then validate_elements ip operation_name (index + 1) rest (integer_list @ [int_value item])
      else if isinstance_float_str item then
        (case convert_item operation_name index item of
           Inl e \<Rightarrow> Inl e
         | Inr integer_item \<Rightarrow>
             validate_elements ip operation_name (index + 1) rest (integer_list @ [integer_item]))
      else (case format_item ip item of
              Some e \<Rightarrow> Inl e
            | None \<Rightarrow>
                Inl (ValueError (ElemWrongType operation_name (index + 1) item (type_name item)))))"

text \<open>\<open>_validate_integer_list\<close>\<close>

definition validate_integer_list :: "interpreter \<Rightarrow> pyval \<Rightarrow> string \<Rightarrow> exn + int list" where
  "validate_integer_list ip data operation_name =
     (case validate_input_list data operation_name of
        Inl e \<Rightarrow> Inl e
      | Inr validated_list \<Rightarrow>
          if validated_list = [] \<and> operation_name = media then Inr []
          else validate_elements ip operation_name 0 validated_list [])"

text \<open>
  \<open>sum_numbers\<close> and \<open>calculate_average\<close>. Their handler
  \<open>except (TypeError, ValueError) as e: raise e\<close> raises what it caught, and an exception
  of another class passes it: every exception leaves the method as it was raised.
\<close>

definition sum_numbers :: "interpreter \<Rightarrow> pyval \<Rightarrow> exn + int" where
  "sum_numbers ip numeros =
     (case validate_integer_list ip numeros soma of
        Inl e \<Rightarrow> Inl e
      | Inr validated_list \<Rightarrow>
          if validated_list = [] then Inl (ValueError (ListIsEmpty soma))
          else Inr (sum_list validated_list))"

definition calculate_average :: "interpreter \<Rightarrow> pyval \<Rightarrow> exn + pyfloat option" where
  "calculate_average ip numeros =
     (case validate_integer_list ip numeros media of
        Inl e \<Rightarrow> Inl e
      | Inr validated_list \<Rightarrow>
          if validated_list = [] then Inr None
          else (case py_truediv (sum_list validated_list) (int (length validated_list)) of
                  Inl e \<Rightarrow> Inl e
                | Inr f \<Rightarrow> Inr (Some f)))"

section \<open>Vocabulary of the specification\<close>

text \<open>
  The outcome of one iteration of the loop of \<open>_validate_integer_list\<close>: the integer
  appended to \<open>integer_list\<close>, or the exception raised.
\<close>

definition check_item :: "interpreter \<Rightarrow> string \<Rightarrow> nat \<Rightarrow> pyval \<Rightarrow> exn + int" where
  "check_item ip operation_name index item =
     (if item = PNone then Inl (ValueError (ElemIsNone operation_name (index + 1)))
      else if isinstance_int item then Inr (int_value item)
      else if isinstance_float_str item then convert_item operation_name index item
      else (case format_item ip item of
              Some e \<Rightarrow> Inl e
            | None \<Rightarrow>
                Inl (ValueError (ElemWrongType operation_name (index + 1) item (type_name item)))))"

text \<open>
  An element is valid when its iteration appends an integer, \<open>coerced\<close> is that integer.
  Whether it does depends neither on the interpreter nor on the operation or the index.
\<close>

definition valid_item :: "pyval \<Rightarrow> bool" where
  "valid_item item =
     (case check_item cpython_defaults [] 0 item of Inl _ \<Rightarrow> False | Inr _ \<Rightarrow> True)"

definition coerced :: "pyval \<Rightarrow> int" where
  "coerced item =
     (case check_item cpython_defaults [] 0 item of Inl _ \<Rightarrow> 0 | Inr n \<Rightarrow> n)"

fun is_list :: "pyval \<Rightarrow> bool" where
  "is_list (PList _) = True"
| "is_list _ = False"

text \<open>
  The failure kinds of the specification, and the kind and the position that a message of
  the library carries. The messages of the built-ins have neither.
\<close>

datatype failure_kind = TypeMismatch | NullInput | EmptyNotAllowed | ElementInvalid

fun kind_of :: "message \<Rightarrow> failure_kind option" where
  "kind_of (NotAList _ _) = Some TypeMismatch"
| "kind_of (ListIsNone _) = Some NullInput"
| "kind_of (ListIsEmpty _) = Some EmptyNotAllowed"
| "kind_of (ElemIsNone _ _) = Some ElementInvalid"
| "kind_of (ElemLosesInformation _ _ _) = Some ElementInvalid"
| "kind_of (ElemNotConvertible _ _ _) = Some ElementInvalid"
| "kind_of (ElemWrongType _ _ _ _) = Some ElementInvalid"
| "kind_of _ = None"

fun position_of :: "message \<Rightarrow> nat option" where
  "position_of (ElemIsNone _ p) = Some p"
| "position_of (ElemLosesInformation _ p _) = Some p"
| "position_of (ElemNotConvertible _ p _) = Some p"
| "position_of (ElemWrongType _ p _ _) = Some p"
| "position_of _ = None"

fun message_of :: "exn \<Rightarrow> message" where
  "message_of (TypeError m) = m"
| "message_of (ValueError m) = m"
| "message_of (OverflowError m) = m"
| "message_of (ZeroDivisionError m) = m"
| "message_of (RecursionError m) = m"

fun is_TypeError :: "exn \<Rightarrow> bool" where
  "is_TypeError (TypeError _) = True"
| "is_TypeError _ = False"

fun is_ValueError :: "exn \<Rightarrow> bool" where
  "is_ValueError (ValueError _) = True"
| "is_ValueError _ = False"

section \<open>The loop, one iteration at a time\<close>

lemma validate_elements_step:
  "validate_elements ip op i (item # rest) acc =
     (case check_item ip op i item of
        Inl e \<Rightarrow> Inl e
      | Inr n \<Rightarrow> validate_elements ip op (i + 1) rest (acc @ [n]))"
  by (simp add: check_item_def split: option.splits)

lemma convert_item_indep:
  "convert_item op i item = Inr n \<Longrightarrow> convert_item op' i' item = Inr n"
  by (auto simp: convert_item_def conversion_attempt_def split: sum.splits exn.splits if_splits)

lemma check_item_indep:
  "check_item ip op i item = Inr n \<Longrightarrow> check_item ip' op' i' item = Inr n"
  by (auto simp: check_item_def split: if_splits option.splits dest: convert_item_indep)

lemma check_item_valid:
  "valid_item item \<Longrightarrow> check_item ip op i item = Inr (coerced item)"
  unfolding valid_item_def coerced_def
  by (cases "check_item cpython_defaults [] 0 item") (auto dest: check_item_indep)

lemma validate_elements_valid_prefix:
  "list_all valid_item pre \<Longrightarrow>
   validate_elements ip op i (pre @ rest) acc =
   validate_elements ip op (i + length pre) rest (acc @ map coerced pre)"
proof (induction pre arbitrary: i acc)
  case Nil
  then show ?case by simp
next
  case (Cons item pre)
  then have v: "valid_item item" and vs: "list_all valid_item pre" by simp_all
  have "validate_elements ip op i ((item # pre) @ rest) acc =
        validate_elements ip op (i + 1) (pre @ rest) (acc @ [coerced item])"
    using check_item_valid [OF v, of ip op i] by (simp only: append_Cons validate_elements_step sum.case)
  also have "\<dots> = validate_elements ip op (i + 1 + length pre) rest ((acc @ [coerced item]) @ map coerced pre)"
    by (rule Cons.IH [OF vs])
  finally show ?case by simp
qed

lemma validate_elements_first_invalid:
  assumes "list_all valid_item pre" and "check_item ip op (i + length pre) bad = Inl e"
  shows "validate_elements ip op i (pre @ bad # post) acc = Inl e"
  using assms by (simp add: validate_elements_valid_prefix validate_elements_step del: validate_elements.simps)

lemma validate_integer_list_nonempty:
  "items \<noteq> [] \<Longrightarrow> validate_integer_list ip (PList items) op = validate_elements ip op 0 items []"
  by (simp add: validate_integer_list_def validate_input_list_def)

lemma validate_integer_list_first_invalid:
  assumes "list_all valid_item pre" and "check_item ip op (length pre) bad = Inl e"
  shows "validate_integer_list ip (PList (pre @ bad # post)) op = Inl e"
  using validate_elements_first_invalid [of pre ip op 0 bad e post "[]"] assms
  by (simp add: validate_integer_list_nonempty)

lemma validate_elements_all_valid:
  "list_all valid_item items \<Longrightarrow> validate_elements ip op i items acc = Inr (acc @ map coerced items)"
  using validate_elements_valid_prefix [of items ip op i "[]" acc] by simp

lemma validate_integer_list_all_valid:
  assumes "list_all valid_item items"
  shows "validate_integer_list ip (PList items) op =
           (if items = [] \<and> op = soma then Inl (ValueError (ListIsEmpty op)) else Inr (map coerced items))"
  using assms
  by (cases "items = []") (simp_all add: validate_integer_list_def validate_input_list_def validate_elements_all_valid)

lemma valid_item_PInt [simp]: "valid_item (PInt n)" "coerced (PInt n) = n"
  by (simp_all add: valid_item_def coerced_def check_item_def)

lemma valid_item_PBool [simp]: "valid_item (PBool b)" "coerced (PBool b) = (if b then 1 else 0)"
  by (simp_all add: valid_item_def coerced_def check_item_def)

lemma validate_elements_length:
  "validate_elements ip op i items acc = Inr ns \<Longrightarrow> length ns = length acc + length items"
  by (induction ip op i items acc rule: validate_elements.induct)
     (auto split: if_splits sum.splits option.splits)

lemma media_neq_soma [simp]: "media \<noteq> soma" "soma \<noteq> media"
  by (simp_all add: media_def soma_def)

lemma validate_integer_list_ints:
  "validate_integer_list ip (PList (map PInt xs)) op =
     (if xs = [] \<and> op = soma then Inl (ValueError (ListIsEmpty op)) else Inr xs)"
  using validate_integer_list_all_valid [of "map PInt xs" ip op]
  by (simp add: list_all_iff comp_def)

section \<open>Evaluation of the built-ins on numerals and literals\<close>

lemma floor_rat_numeral_div: "\<lfloor>(numeral a :: rat) / numeral b\<rfloor> = numeral a div numeral b"
  using floor_divide_of_int_eq [of "numeral a" "numeral b", where ?'a = rat] by simp

lemma ceiling_rat_numeral_div: "\<lceil>(numeral a :: rat) / numeral b\<rceil> = - ((- numeral a) div numeral b)"
  using ceiling_divide_eq_div [of "numeral a" "numeral b", where ?'a = rat] by simp

lemma bitlen_numeral: "bitlen (numeral n) = bitlen (numeral n div 2) + 1"
  by (subst compute_bitlen) simp

lemma bitlen_one: "bitlen 1 = 1"
  by (subst compute_bitlen) simp

lemmas rd_eval = round_double_def round_double_pos_def round_half_even_def floor_log2_def
  pow2_def Let_def floor_rat_numeral_div ceiling_rat_numeral_div bitlen_numeral bitlen_one

lemmas parse_eval = parse_float_def parse_unsigned_def parse_decimal_def parse_exponent_def
  strip_def py_isspace_def is_digit_def digit_value_def digits_value_def to_lower_def

lemmas validate_eval = validate_integer_list_def validate_input_list_def convert_item_def
  conversion_attempt_def soma_def media_def

lemmas item_eval = valid_item_def coerced_def check_item_def convert_item_def conversion_attempt_def

section \<open>Properties of the rounding\<close>

text \<open>
  \<open>floor_log2\<close> is the binary logarithm rounded down; a binary64 number rounds to
  itself, and a number of \<open>2^1024\<close> or more rounds to infinity.
\<close>

lemma pow2_powi: "pow2 k = 2 powi k"
  by (simp add: pow2_def power_int_def field_simps)

lemma pow2_pos [simp]: "0 < pow2 k"
  by (simp add: pow2_def)

lemma pow2_neq_0 [simp]: "pow2 k \<noteq> 0"
  by (simp add: pow2_def)

lemma pow2_add: "pow2 (a + b) = pow2 a * pow2 b"
  by (simp add: pow2_powi power_int_add)

lemma pow2_diff: "pow2 (a - b) = pow2 a / pow2 b"
  by (simp add: pow2_powi power_int_diff)

lemma pow2_mono: "a \<le> b \<Longrightarrow> pow2 a \<le> pow2 b"
  by (simp add: pow2_powi power_int_increasing)

lemma pow2_strict_mono: "a < b \<Longrightarrow> pow2 a < pow2 b"
  by (simp add: pow2_powi power_int_strict_increasing)

lemma pow2_less_cancel: "pow2 a < pow2 b \<Longrightarrow> a < b"
  using pow2_mono [of b a] by (cases "a < b") auto

lemma pow2_nonneg_exp: "0 \<le> k \<Longrightarrow> pow2 k = of_int (2 ^ nat k)"
  by (simp add: pow2_def)

lemma floor_log2_lower:
  assumes "0 < q"
  shows "pow2 (floor_log2 q) \<le> q"
proof (cases "1 \<le> q")
  case True
  then have pos: "0 < \<lfloor>q\<rfloor>" by simp
  from bitlen_bounds [OF pos] have "2 ^ nat (bitlen \<lfloor>q\<rfloor> - 1) \<le> \<lfloor>q\<rfloor>" by simp
  then have "(of_int (2 ^ nat (bitlen \<lfloor>q\<rfloor> - 1)) :: rat) \<le> of_int \<lfloor>q\<rfloor>"
    by (simp only: of_int_le_iff)
  also have "\<dots> \<le> q" by simp
  finally have "(of_int (2 ^ nat (bitlen \<lfloor>q\<rfloor> - 1)) :: rat) \<le> q" .
  moreover from pos have "0 \<le> bitlen \<lfloor>q\<rfloor> - 1"
    using bitlen_eq_zero_iff [of "\<lfloor>q\<rfloor>"] bitlen_nonneg [of "\<lfloor>q\<rfloor>"] by linarith
  ultimately show ?thesis using True by (simp add: floor_log2_def pow2_nonneg_exp)
next
  case False
  let ?x = "\<lceil>1 / q\<rceil> - 1"
  let ?b = "bitlen ?x"
  from False assms have "1 < 1 / q" by (simp add: field_simps)
  then have "1 < \<lceil>1 / q\<rceil>" by (simp add: less_ceiling_iff)
  then have pos: "0 < ?x" by simp
  from bitlen_bounds [OF pos] have "?x < 2 ^ nat ?b" by simp
  then have "\<lceil>1 / q\<rceil> \<le> 2 ^ nat ?b" by simp
  then have "1 / q \<le> of_int (2 ^ nat ?b)" by (simp only: ceiling_le_iff)
  then have "1 / q \<le> pow2 ?b" by (simp add: pow2_nonneg_exp bitlen_nonneg)
  then have "1 / pow2 ?b \<le> q" using assms by (simp add: field_simps)
  moreover have "pow2 (- ?b) = 1 / pow2 ?b"
    using pow2_diff [of 0 ?b] by (simp add: pow2_def)
  ultimately show ?thesis using False by (simp add: floor_log2_def)
qed

lemma floor_log2_upper:
  assumes "1 \<le> q"
  shows "q < pow2 (floor_log2 q + 1)"
proof -
  from assms have pos: "0 < \<lfloor>q\<rfloor>" by simp
  from bitlen_bounds [OF pos] have "\<lfloor>q\<rfloor> < 2 ^ nat (bitlen \<lfloor>q\<rfloor>)" by simp
  then have "\<lfloor>q\<rfloor> + 1 \<le> 2 ^ nat (bitlen \<lfloor>q\<rfloor>)" by simp
  then have "(of_int (\<lfloor>q\<rfloor> + 1) :: rat) \<le> of_int (2 ^ nat (bitlen \<lfloor>q\<rfloor>))"
    by (simp only: of_int_le_iff)
  moreover have "q < of_int (\<lfloor>q\<rfloor> + 1)" by linarith
  ultimately have "q < of_int (2 ^ nat (bitlen \<lfloor>q\<rfloor>))" by linarith
  then show ?thesis using assms by (simp add: floor_log2_def pow2_nonneg_exp bitlen_nonneg)
qed

lemma round_half_even_of_int [simp]: "round_half_even (of_int m) = m"
  by (simp add: round_half_even_def)

lemma round_half_even_ge_floor: "\<lfloor>r\<rfloor> \<le> round_half_even r"
  by (simp add: round_half_even_def Let_def)

lemma round_double_pos_exact:
  assumes m: "0 < m" "m < 2 ^ 53" and e: "- 1074 \<le> e" "e \<le> 971"
  shows "round_double_pos (of_int m * pow2 e) = Fin (of_int m * pow2 e)"
proof -
  let ?q = "of_int m * pow2 e :: rat"
  define e' where "e' = max (floor_log2 ?q - 52) (- 1074)"
  have qpos: "0 < ?q" using m by simp
  have "(of_int m :: rat) < of_int (2 ^ 53)" using m by (simp only: of_int_less_iff)
  then have "(of_int m :: rat) < pow2 53" by (simp add: pow2_def)
  then have "?q < pow2 53 * pow2 e" by (simp add: mult_strict_right_mono)
  then have ub: "?q < pow2 (53 + e)" by (simp add: pow2_add)
  with floor_log2_lower [OF qpos] have "pow2 (floor_log2 ?q) < pow2 (53 + e)" by simp
  then have "floor_log2 ?q < 53 + e" by (rule pow2_less_cancel)
  with e have le: "e' \<le> e" by (simp add: e'_def)
  have "pow2 e = pow2 ((e - e') + e')" by simp
  also have "\<dots> = pow2 (e - e') * pow2 e'" by (rule pow2_add)
  finally have decomp: "pow2 e = pow2 (e - e') * pow2 e'" .
  have quot: "?q / pow2 e' = of_int (m * 2 ^ nat (e - e'))"
    using le by (simp add: decomp pow2_nonneg_exp)
  have recomp: "of_int (m * 2 ^ nat (e - e')) * pow2 e' = ?q"
    using le by (simp add: decomp pow2_nonneg_exp)
  have "pow2 (53 + e) \<le> pow2 1024" using e by (intro pow2_mono) simp
  with ub have fin: "\<not> pow2 1024 \<le> ?q" by simp
  show ?thesis
    unfolding round_double_pos_def Let_def e'_def [symmetric] quot round_half_even_of_int recomp
    using fin by simp
qed

lemma round_double_pos_overflow:
  assumes "pow2 1024 \<le> q"
  shows "round_double_pos q = PosInf"
proof -
  let ?L = "floor_log2 q"
  have one: "1 \<le> q"
  proof -
    have "pow2 0 \<le> pow2 1024" by (intro pow2_mono) simp
    with assms show ?thesis by (simp add: pow2_def)
  qed
  then have qpos: "0 < q" by simp
  from floor_log2_upper [OF one] assms have "pow2 1024 < pow2 (?L + 1)" by simp
  then have L: "1024 \<le> ?L" using pow2_less_cancel by fastforce
  define e where "e = max (?L - 52) (- 1074)"
  from L have e: "e = ?L - 52" by (simp add: e_def)
  have "pow2 ?L = pow2 (52 + e)" by (simp add: e)
  also have "\<dots> = pow2 52 * pow2 e" by (rule pow2_add)
  finally have decomp: "pow2 ?L = pow2 52 * pow2 e" .
  from floor_log2_lower [OF qpos] have "pow2 52 * pow2 e \<le> q" by (simp add: decomp)
  then have "pow2 52 \<le> q / pow2 e" by (simp add: field_simps)
  then have "(of_int (2 ^ 52) :: rat) \<le> q / pow2 e" by (simp add: pow2_def)
  then have "2 ^ 52 \<le> \<lfloor>q / pow2 e\<rfloor>" by (simp only: le_floor_iff)
  with round_half_even_ge_floor [of "q / pow2 e"]
  have "2 ^ 52 \<le> round_half_even (q / pow2 e)" by linarith
  then have "(of_int (2 ^ 52) :: rat) \<le> of_int (round_half_even (q / pow2 e))"
    by (simp only: of_int_le_iff)
  then have "pow2 52 \<le> of_int (round_half_even (q / pow2 e))" by (simp add: pow2_def)
  then have "pow2 52 * pow2 e \<le> of_int (round_half_even (q / pow2 e)) * pow2 e"
    by (simp add: mult_right_mono)
  then have "pow2 ?L \<le> of_int (round_half_even (q / pow2 e)) * pow2 e" by (simp add: decomp)
  moreover from L have "pow2 1024 \<le> pow2 ?L" by (rule pow2_mono)
  ultimately have "pow2 1024 \<le> of_int (round_half_even (q / pow2 e)) * pow2 e" by linarith
  then show ?thesis
    unfolding round_double_pos_def Let_def e_def [symmetric] by simp
qed

lemma round_double_int_exact:
  assumes "\<bar>n\<bar> \<le> 2 ^ 53"
  shows "round_double (of_int n) = Fin (of_int n)"
proof -
  have pos: "round_double_pos (of_int k) = Fin (of_int k)" if k: "0 < k" "k \<le> 2 ^ 53" for k
  proof (cases "k = 2 ^ 53")
    case True
    have "round_double_pos (of_int (2 ^ 52) * pow2 1) = Fin (of_int (2 ^ 52) * pow2 1)"
      by (rule round_double_pos_exact) simp_all
    then show ?thesis by (simp add: True pow2_def)
  next
    case False
    with k have "k < 2 ^ 53" by simp
    from round_double_pos_exact [OF k(1) this, of 0] show ?thesis by (simp add: pow2_def)
  qed
  show ?thesis
  proof (cases "n = 0")
    case True
    then show ?thesis by (simp add: round_double_def)
  next
    case False
    show ?thesis
    proof (cases "0 < n")
      case True
      with assms pos [of n] show ?thesis by (simp add: round_double_def)
    next
      case neg: False
      with False assms have "0 < - n" "- n \<le> 2 ^ 53" by simp_all
      from pos [OF this] neg False show ?thesis by (simp add: round_double_def)
    qed
  qed
qed

section \<open>Strings of decimal digits\<close>

text \<open>
  A non-empty string of decimal digits is read by \<open>float\<close> as the rounding of the
  integer it denotes, which is that integer itself up to \<open>2^53\<close>.
\<close>

lemma is_digit_not_special:
  assumes "is_digit c"
  shows "\<not> py_isspace c" "c \<noteq> CHR ''_''" "c \<noteq> CHR ''-''" "c \<noteq> CHR ''+''" "c \<noteq> CHR ''.''"
    "c \<noteq> CHR ''i''" "c \<noteq> CHR ''n''" "to_lower c = c"
  using assms by (auto simp: is_digit_def py_isspace_def to_lower_def)

lemma strip_digits:
  assumes "ds \<noteq> []" and "list_all is_digit ds"
  shows "strip ds = ds"
proof -
  from assms have h: "\<not> py_isspace (hd ds)" and l: "\<not> py_isspace (hd (rev ds))"
    by (auto simp: list_all_iff hd_rev is_digit_not_special)
  from h assms(1) have "dropWhile py_isspace ds = ds" by (cases ds) simp_all
  moreover from l assms(1) have "dropWhile py_isspace (rev ds) = rev ds"
    by (cases "rev ds") simp_all
  ultimately show ?thesis by (simp add: strip_def)
qed

lemma remove_underscores_digits:
  "ds \<noteq> [] \<Longrightarrow> list_all is_digit ds \<Longrightarrow> remove_underscores prev ds = Some ds"
proof (induction ds arbitrary: prev)
  case Nil
  then show ?case by simp
next
  case (Cons c ds)
  then have c: "is_digit c" by simp
  show ?case
  proof (cases "ds = []")
    case True
    with c show ?thesis by (simp add: is_digit_not_special)
  next
    case False
    with Cons have "remove_underscores c ds = Some ds" by simp
    with c show ?thesis by (simp add: is_digit_not_special)
  qed
qed

lemma parse_decimal_digits:
  assumes "ds \<noteq> []" and "list_all is_digit ds"
  shows "parse_decimal ds = Some (of_int (digits_value ds))"
proof -
  from assms(2) have tw: "takeWhile is_digit ds = ds" and dw: "dropWhile is_digit ds = []"
    by (simp_all add: list_all_iff)
  show ?thesis
    unfolding parse_decimal_def tw dw using assms(1) by (simp add: parse_exponent_def)
qed

lemma parse_float_digits:
  assumes "ds \<noteq> []" and "list_all is_digit ds"
  shows "parse_float ds = Some (round_double (of_int (digits_value ds)))"
proof -
  from assms obtain c u where ds: "ds = c # u" and c: "is_digit c" by (cases ds) auto
  have low: "map to_lower ds = ds"
    using assms(2) by (simp add: list_all_iff map_idI is_digit_not_special)
  from ds c have "ds \<noteq> ''inf''" "ds \<noteq> ''infinity''" "ds \<noteq> ''nan''"
    by (auto simp: is_digit_not_special)
  with low have "parse_unsigned ds = Some (round_double (of_int (digits_value ds)))"
    by (simp add: parse_unsigned_def parse_decimal_digits [OF assms])
  then have "(case ds of [] \<Rightarrow> None
         | c # u \<Rightarrow>
             if c = CHR ''-'' then map_option negate (parse_unsigned u)
             else if c = CHR ''+'' then parse_unsigned u
             else parse_unsigned ds) = Some (round_double (of_int (digits_value ds)))"
    using ds c by (simp add: is_digit_not_special)
  then show ?thesis
    unfolding parse_float_def strip_digits [OF assms] remove_underscores_digits [OF assms]
    by simp
qed

lemma digit_value_nonneg: "is_digit c \<Longrightarrow> 0 \<le> digit_value c"
proof -
  assume "is_digit c"
  then have "(48 :: int) \<le> of_nat (of_char c)" by (simp add: is_digit_def)
  then show ?thesis by (simp add: digit_value_def of_nat_of_char)
qed

lemma digits_value_nonneg: "0 \<le> a \<Longrightarrow> list_all is_digit ds \<Longrightarrow>
    0 \<le> foldl (\<lambda>acc c. 10 * acc + digit_value c) a ds"
proof (induction ds arbitrary: a)
  case Nil
  then show ?case by simp
next
  case (Cons c ds)
  then have "0 \<le> 10 * a + digit_value c" using digit_value_nonneg [of c] by simp
  with Cons show ?case by simp
qed

lemma decimal_string_exact:
  assumes "ds \<noteq> []" and "list_all is_digit ds" and "digits_value ds \<le> 2 ^ 53"
  shows "py_float (PStr ds) = Inr (Fin (of_int (digits_value ds)))"
proof -
  have "0 \<le> digits_value ds"
    unfolding digits_value_def by (rule digits_value_nonneg [OF _ assms(2)]) simp
  with assms(3) have "\<bar>digits_value ds\<bar> \<le> 2 ^ 53" by simp
  then show ?thesis
    by (simp add: parse_float_digits [OF assms(1,2)] round_double_int_exact)
qed

section \<open>The exceptions that leave the validator\<close>

lemma conversion_attempt_errors:
  assumes "isinstance_float_str item" and "conversion_attempt op i item = Inl e"
  shows "is_ValueError e \<or> e = OverflowError CannotConvertInfinityToInteger"
proof (cases item)
  case (PFloat f)
  with assms(2) show ?thesis
    by (cases f) (auto simp: conversion_attempt_def split: if_splits)
next
  case (PStr s)
  show ?thesis
  proof (cases "parse_float s")
    case None
    with PStr assms(2) show ?thesis by (auto simp: conversion_attempt_def)
  next
    case (Some f)
    with PStr assms(2) show ?thesis
      by (cases f) (auto simp: conversion_attempt_def split: if_splits)
  qed
qed (use assms(1) in simp_all)

lemma convert_item_errors:
  assumes "isinstance_float_str item" and "convert_item op i item = Inl e"
  shows "e = ValueError (ElemNotConvertible op (i + 1) item) \<or>
         e = OverflowError CannotConvertInfinityToInteger"
proof (cases "conversion_attempt op i item")
  case (Inl e')
  from conversion_attempt_errors [OF assms(1) Inl] assms(2) Inl show ?thesis
    by (cases e') (auto simp: convert_item_def)
next
  case (Inr n)
  with assms(2) show ?thesis by (simp add: convert_item_def)
qed

lemma first_raised_member: "first_raised rs = Some e \<Longrightarrow> Some e \<in> set rs"
  by (induction rs rule: first_raised.induct) auto

lemma repr_raises_errors:
  "repr_raises limit depth v = Some e \<Longrightarrow>
   e = ValueError ExceedsDigitLimit \<or> e = RecursionError MaximumRecursionDepth"
proof (induction limit depth v rule: repr_raises.induct)
  case (1 limit depth n)
  then show ?case by (auto split: if_splits)
next
  case (2 limit depth xs)
  show ?case
  proof (cases "depth = 0")
    case True
    with 2 show ?thesis by simp
  next
    case False
    with "2.prems" have "first_raised (map (repr_raises limit (depth - 1)) xs) = Some e" by simp
    from first_raised_member [OF this] obtain x where
      "x \<in> set xs" "repr_raises limit (depth - 1) x = Some e" by auto
    with "2.IH" False show ?thesis by blast
  qed
next
  case (3 limit depth kvs)
  show ?case
  proof (cases "depth = 0")
    case True
    with 3 show ?thesis by simp
  next
    case False
    with "3.prems" have
      "first_raised (map (\<lambda>kv. repr_raises limit (depth - 1) (snd kv)) kvs) = Some e" by simp
    from first_raised_member [OF this] obtain kv where
      "kv \<in> set kvs" "repr_raises limit (depth - 1) (snd kv) = Some e" by auto
    with "3.IH" False show ?thesis by (metis prod.collapse)
  qed
qed (auto split: if_splits)

lemma format_item_errors:
  "format_item ip item = Some e \<Longrightarrow>
   e = ValueError ExceedsDigitLimit \<or> e = RecursionError MaximumRecursionDepth"
  unfolding format_item_def by (rule repr_raises_errors)

lemma check_item_errors:
  assumes "check_item ip op i item = Inl e"
  shows "(\<exists>m. e = ValueError m \<and> kind_of m = Some ElementInvalid \<and> position_of m = Some (i + 1)) \<or>
         e = OverflowError CannotConvertInfinityToInteger \<or>
         e = ValueError ExceedsDigitLimit \<or> e = RecursionError MaximumRecursionDepth"
  using assms convert_item_errors [of item op i e] format_item_errors [of ip item e]
  by (auto simp: check_item_def split: if_splits option.splits)

lemma validate_elements_errors:
  "validate_elements ip op i items acc = Inl e \<Longrightarrow>
   (\<exists>m. e = ValueError m \<and> kind_of m = Some ElementInvalid) \<or>
   e = OverflowError CannotConvertInfinityToInteger \<or>
   e = ValueError ExceedsDigitLimit \<or> e = RecursionError MaximumRecursionDepth"
proof (induction items arbitrary: i acc)
  case Nil
  then show ?case by simp
next
  case (Cons item items)
  show ?case
  proof (cases "check_item ip op i item")
    case (Inl e')
    with Cons.prems have "e' = e" by (simp only: validate_elements_step sum.case) simp
    with check_item_errors [OF Inl] show ?thesis by auto
  next
    case (Inr n)
    with Cons.prems have "validate_elements ip op (i + 1) items (acc @ [n]) = Inl e"
      by (simp only: validate_elements_step sum.case)
    then show ?thesis by (rule Cons.IH)
  qed
qed

lemma validate_integer_list_not_list:
  "\<not> is_list data \<Longrightarrow>
   validate_integer_list ip data op = Inl (TypeError (NotAList op (type_name data)))"
  by (cases data) (simp_all add: validate_integer_list_def validate_input_list_def)

lemma validate_integer_list_errors:
  assumes "validate_integer_list ip (PList items) op = Inl e"
  shows "(\<exists>m. e = ValueError m \<and> (kind_of m = Some ElementInvalid \<or> kind_of m = Some EmptyNotAllowed)) \<or>
         e = OverflowError CannotConvertInfinityToInteger \<or>
         e = ValueError ExceedsDigitLimit \<or> e = RecursionError MaximumRecursionDepth"
proof (cases "items = []")
  case True
  with assms show ?thesis
    by (auto simp: validate_integer_list_def validate_input_list_def split: if_splits)
next
  case False
  with assms have "validate_elements ip op 0 items [] = Inl e"
    by (simp add: validate_integer_list_nonempty)
  from validate_elements_errors [OF this] show ?thesis by auto
qed

text \<open>
  The message of an exception of the loop is one of three messages of the library, or
  the message of \<open>int\<close> or of \<open>str\<close>; the message about the loss of information,
  raised inside the inner \<open>try\<close>, never leaves the validator.
\<close>

lemma check_item_message:
  assumes "check_item ip op i item = Inl e"
  shows "e = ValueError (ElemIsNone op (i + 1)) \<or>
         e = ValueError (ElemNotConvertible op (i + 1) item) \<or>
         e = ValueError (ElemWrongType op (i + 1) item (type_name item)) \<or>
         e = OverflowError CannotConvertInfinityToInteger \<or>
         e = ValueError ExceedsDigitLimit \<or> e = RecursionError MaximumRecursionDepth"
  using assms convert_item_errors [of item op i e] format_item_errors [of ip item e]
  by (auto simp: check_item_def split: if_splits option.splits)

lemma validate_elements_message:
  "validate_elements ip op i items acc = Inl e \<Longrightarrow>
   \<exists>k item. k < length items \<and> item = items ! k \<and> check_item ip op (i + k) item = Inl e"
proof (induction items arbitrary: i acc)
  case Nil
  then show ?case by simp
next
  case (Cons item items)
  show ?case
  proof (cases "check_item ip op i item")
    case (Inl e')
    with Cons.prems have "e' = e" by (simp only: validate_elements_step sum.case) simp
    with Inl have "check_item ip op (i + 0) ((item # items) ! 0) = Inl e" by simp
    then show ?thesis by blast
  next
    case (Inr n)
    with Cons.prems have "validate_elements ip op (i + 1) items (acc @ [n]) = Inl e"
      by (simp only: validate_elements_step sum.case)
    from Cons.IH [OF this] obtain k where
      k: "k < length items" "check_item ip op (i + 1 + k) (items ! k) = Inl e" by blast
    then have "Suc k < length (item # items)"
      "check_item ip op (i + Suc k) ((item # items) ! Suc k) = Inl e" by simp_all
    then show ?thesis by blast
  qed
qed

lemma loses_information_never_leaves:
  "validate_integer_list ip data op \<noteq> Inl (ValueError (ElemLosesInformation op' p item))"
proof
  assume a: "validate_integer_list ip data op = Inl (ValueError (ElemLosesInformation op' p item))"
  from validate_integer_list_not_list [of data ip op] a obtain items where d: "data = PList items"
    by (cases data) simp_all
  show False
  proof (cases "items = []")
    case True
    with a d show False
      by (auto simp: validate_integer_list_def validate_input_list_def split: if_splits)
  next
    case False
    with a d have "validate_elements ip op 0 items [] = Inl (ValueError (ElemLosesInformation op' p item))"
      by (simp add: validate_integer_list_nonempty)
    from validate_elements_message [OF this] obtain k it where
      "check_item ip op (0 + k) it = Inl (ValueError (ElemLosesInformation op' p item))" by blast
    from check_item_message [OF this] show False by simp
  qed
qed

section \<open>Elements with a fractional part\<close>

text \<open>
  C1, as the specification states it, fails: a numeric string with a non-zero fractional
  part that is lost when \<open>float\<close> rounds it to binary64 is accepted, as the integer
  next to it.
\<close>

theorem tiny_fraction_is_accepted:
  "parse_decimal ''5.0000000000000000001'' = Some (5 + 1 / 10 ^ 19) \<and>
   validate_integer_list cpython_defaults (PList [PStr ''5.0000000000000000001'']) soma = Inr [5]"
  by (simp add: validate_integer_list_nonempty convert_item_def conversion_attempt_def
      parse_eval rd_eval)

lemma check_item_fraction:
  assumes "isinstance_float_str item" and "py_float item = Inr (Fin q)" and "of_int \<lfloor>q\<rfloor> \<noteq> q"
  shows "check_item ip op i item = Inl (ValueError (ElemNotConvertible op (i + 1) item))"
proof -
  have "of_int \<lceil>q\<rceil> \<noteq> q" using assms(3) by (metis floor_of_int ceiling_of_int)
  with assms have "conversion_attempt op i item =
      Inl (ValueError (ElemLosesInformation op (i + 1) item))"
    by (simp add: conversion_attempt_def)
  then have "convert_item op i item = Inl (ValueError (ElemNotConvertible op (i + 1) item))"
    by (simp add: convert_item_def)
  with assms(1) show ?thesis by (cases item) (simp_all add: check_item_def)
qed

text \<open>
  C1, amended: a float with a non-zero fractional part, or a string that \<open>float\<close> reads
  as a finite binary64 number with a non-zero fractional part, makes the validator raise a
  \<open>ValueError\<close> of kind ElementInvalid that names the 1-based position of the element,
  when the elements before it are valid.
\<close>

theorem fractional_element_rejected_at_position:
  assumes "list_all valid_item pre"
    and "isinstance_float_str item" and "py_float item = Inr (Fin q)" and "of_int \<lfloor>q\<rfloor> \<noteq> q"
  shows "\<exists>m. validate_integer_list ip (PList (pre @ item # post)) op = Inl (ValueError m) \<and>
             kind_of m = Some ElementInvalid \<and> position_of m = Some (length pre + 1)"
  using validate_integer_list_first_invalid [OF assms(1) check_item_fraction [OF assms(2-4)]]
  by simp

theorem fractional_element_rejected_at_position_witness:
  "(\<exists>m. validate_integer_list cpython_defaults (PList [PInt 1, PInt 2, PStr ''2.5'', PInt 4]) soma = Inl (ValueError m) \<and>
        kind_of m = Some ElementInvalid \<and> position_of m = Some 3) \<and>
   (\<exists>m. validate_integer_list cpython_defaults (PList [PFloat (Fin (7 / 2))]) media = Inl (ValueError m) \<and>
        kind_of m = Some ElementInvalid \<and> position_of m = Some 1)"
  using fractional_element_rejected_at_position
      [of "[PInt 1, PInt 2]" "PStr ''2.5''" "5 / 2" cpython_defaults "[PInt 4]" soma]
    fractional_element_rejected_at_position
      [of "[]" "PFloat (Fin (7 / 2))" "7 / 2" cpython_defaults "[]" media]
  by (simp add: parse_eval rd_eval eval_nat_numeral)

section \<open>Elements with an integer value\<close>

text \<open>
  C2, as the specification states it, fails: the string \<open>9007199254740993\<close> denotes an
  integer, and the element placed in the validated sequence is \<open>9007199254740992\<close>, the
  binary64 number nearest to it.
\<close>

theorem large_integer_string_is_rounded:
  "parse_decimal ''9007199254740993'' = Some 9007199254740993 \<and>
   validate_integer_list cpython_defaults (PList [PStr ''9007199254740993'']) soma = Inr [9007199254740992]"
  by (simp add: validate_integer_list_nonempty convert_item_def conversion_attempt_def
      parse_eval rd_eval)

lemma check_item_integral:
  assumes "isinstance_float_str item" and "py_float item = Inr (Fin (of_int n))"
  shows "check_item ip op i item = Inr n"
proof -
  from assms(2) have "conversion_attempt op i item = Inr n"
    by (simp add: conversion_attempt_def)
  then have "convert_item op i item = Inr n" by (simp add: convert_item_def)
  with assms(1) show ?thesis by (cases item) (simp_all add: check_item_def)
qed

lemma valid_item_integral:
  assumes "isinstance_float_str item" and "py_float item = Inr (Fin (of_int n))"
  shows "valid_item item" and "coerced item = n"
  using check_item_integral [OF assms, of cpython_defaults "[]" 0] by (simp_all add: valid_item_def coerced_def)

lemma decimal_string_element:
  assumes "ds \<noteq> []" and "list_all is_digit ds" and "digits_value ds \<le> 2 ^ 53"
  shows "valid_item (PStr ds)" and "coerced (PStr ds) = digits_value ds"
  using valid_item_integral [OF _ decimal_string_exact [OF assms]] by simp_all

text \<open>
  C2, amended: a float with an integer value, or a string that \<open>float\<close> reads as a
  binary64 number with an integer value, is accepted, and the element placed in the
  validated sequence is the integer value of that binary64 number.
\<close>

theorem integral_element_coerced:
  assumes "list_all valid_item pre" and "list_all valid_item post"
    and "isinstance_float_str item" and "py_float item = Inr (Fin (of_int n))"
  shows "validate_integer_list ip (PList (pre @ item # post)) op =
           Inr (map coerced pre @ n # map coerced post)"
  using validate_integer_list_all_valid [of "pre @ item # post" ip op] assms(1,2)
    valid_item_integral [OF assms(3,4)]
  by simp

theorem integral_element_coerced_witness:
  "validate_integer_list cpython_defaults (PList [PInt 1, PStr ''5.0'', PInt 2]) soma = Inr [1, 5, 2] \<and>
   validate_integer_list cpython_defaults (PList [PStr ''5'']) media = Inr [5] \<and>
   validate_integer_list cpython_defaults (PList [PFloat (Fin 3)]) soma = Inr [3]"
  using integral_element_coerced [of "[PInt 1]" "[PInt 2]" "PStr ''5.0''" 5 cpython_defaults soma]
    integral_element_coerced [of "[]" "[]" "PStr ''5''" 5 cpython_defaults media]
    integral_element_coerced [of "[]" "[]" "PFloat (Fin 3)" 3 cpython_defaults soma]
  by (simp add: parse_eval rd_eval)

section \<open>Empty input\<close>

lemma calculate_average_None_iff:
  "calculate_average ip numeros = Inr None \<longleftrightarrow> numeros = PList []"
proof
  assume a: "calculate_average ip numeros = Inr None"
  then obtain vl where vl: "validate_integer_list ip numeros media = Inr vl" and e: "vl = []"
    by (auto simp: calculate_average_def split: sum.splits if_splits)
  from vl obtain items where items: "numeros = PList items"
    by (cases numeros) (auto simp: validate_integer_list_def validate_input_list_def)
  show "numeros = PList []"
  proof (cases "items = []")
    case True
    with items show ?thesis by simp
  next
    case False
    with vl items have "validate_elements ip media 0 items [] = Inr vl"
      by (simp add: validate_integer_list_nonempty)
    from validate_elements_length [OF this] e False show ?thesis by simp
  qed
next
  assume "numeros = PList []"
  then show "calculate_average ip numeros = Inr None"
    by (simp add: calculate_average_def validate_integer_list_def validate_input_list_def)
qed

text \<open>
  C3: the empty-input policy depends on the operation. \<open>sum_numbers([])\<close> raises the
  \<open>ValueError\<close> saying that the list must not be empty; \<open>calculate_average([])\<close>
  returns \<open>None\<close>, and the empty list is the only input on which it returns \<open>None\<close>.
\<close>

theorem empty_input_policy:
  "sum_numbers ip (PList []) = Inl (ValueError (ListIsEmpty soma)) \<and>
   kind_of (ListIsEmpty soma) = Some EmptyNotAllowed \<and>
   calculate_average ip (PList []) = Inr None \<and>
   (\<forall>numeros. calculate_average ip numeros = Inr None \<longleftrightarrow> numeros = PList [])"
  by (simp add: calculate_average_None_iff)
     (simp add: sum_numbers_def validate_integer_list_def validate_input_list_def)

theorem empty_input_policy_witness:
  "calculate_average cpython_defaults (PList [PInt 0, PInt 0, PInt 0]) \<noteq> Inr None \<and>
   calculate_average cpython_defaults (PList []) = Inr None"
  using empty_input_policy [of cpython_defaults] by simp

section \<open>The sum\<close>

lemma sum_numbers_ints: "xs \<noteq> [] \<Longrightarrow> sum_numbers ip (PList (map PInt xs)) = Inr (sum_list xs)"
  by (simp add: sum_numbers_def validate_integer_list_ints)

lemma permutation_of_ints:
  assumes "mset items = mset (map PInt xs)"
  shows "items = map PInt (map int_value items) \<and> mset (map int_value items) = mset xs"
proof -
  from assms have "set items = set (map PInt xs)" by (rule mset_eq_setD)
  then have "\<forall>v \<in> set items. PInt (int_value v) = v" by auto
  then have 1: "items = map PInt (map int_value items)" by (simp add: map_idI)
  have "mset (map int_value items) = image_mset int_value (mset items)" by simp
  also have "\<dots> = image_mset int_value (mset (map PInt xs))" by (simp only: assms)
  also have "\<dots> = mset xs" by (simp add: multiset.map_comp comp_def)
  finally show ?thesis using 1 by simp
qed

text \<open>
  C4: for a non-empty list of genuine integers \<open>sum_numbers\<close> returns their exact sum,
  and so it does for every permutation of the list; \<open>sum_numbers([1,2,3,4]) = 10\<close>.
\<close>

theorem sum_numbers_exact_any_order:
  assumes "xs \<noteq> []" and "mset items = mset (map PInt xs)"
  shows "sum_numbers ip (PList (map PInt xs)) = Inr (sum_list xs) \<and>
         sum_numbers ip (PList items) = Inr (sum_list xs)"
proof -
  let ?ys = "map int_value items"
  from permutation_of_ints [OF assms(2)]
  have items: "items = map PInt ?ys" and ms: "mset ?ys = mset xs" by simp_all
  from ms assms(1) have ne: "?ys \<noteq> []" by auto
  have "sum_list ?ys = sum_mset (mset ?ys)" by (simp only: sum_mset_sum_list)
  also have "\<dots> = sum_list xs" by (simp only: ms sum_mset_sum_list)
  finally have s: "sum_list ?ys = sum_list xs" .
  have "sum_numbers ip (PList (map PInt ?ys)) = Inr (sum_list ?ys)" by (rule sum_numbers_ints [OF ne])
  with items s have "sum_numbers ip (PList items) = Inr (sum_list xs)" by simp
  with sum_numbers_ints [OF assms(1)] show ?thesis by simp
qed

theorem sum_numbers_exact_any_order_witness:
  "sum_numbers cpython_defaults (PList [PInt 1, PInt 2, PInt 3, PInt 4]) = Inr 10 \<and>
   sum_numbers cpython_defaults (PList [PInt 4, PInt 2, PInt 1, PInt 3]) = Inr 10"
  using sum_numbers_exact_any_order
      [of "[1, 2, 3, 4]" "[PInt 4, PInt 2, PInt 1, PInt 3]" cpython_defaults]
  by simp

section \<open>The average\<close>

text \<open>
  C5, as the specification states it, fails: on the one-element list \<open>[2 ** 1024]\<close> the
  division raises \<open>OverflowError\<close>, and \<open>calculate_average\<close> returns no float.
\<close>

theorem calculate_average_overflow:
  "calculate_average cpython_defaults (PList [PInt (2 ^ 1024)]) = Inl (OverflowError DivisionResultTooLarge)"
proof -
  have "pow2 1024 \<le> (of_int (2 ^ 1024) :: rat)" by (simp add: pow2_def)
  then have "round_double_pos (of_int (2 ^ 1024)) = PosInf" by (rule round_double_pos_overflow)
  then have "round_double (of_int (2 ^ 1024)) = PosInf" by (simp add: round_double_def)
  then have "py_truediv (2 ^ 1024) 1 = Inl (OverflowError DivisionResultTooLarge)"
    by (simp add: py_truediv_def)
  moreover have "validate_integer_list cpython_defaults (PList [PInt (2 ^ 1024)]) media = Inr [2 ^ 1024]"
    using validate_integer_list_ints [of cpython_defaults "[2 ^ 1024]" media] by simp
  ultimately show ?thesis by (simp add: calculate_average_def)
qed

lemma py_truediv_round:
  "b \<noteq> 0 \<Longrightarrow> py_truediv a b =
     (case round_double (of_int a / of_int b) of
        Fin q \<Rightarrow> Inr (Fin q)
      | _ \<Rightarrow> Inl (OverflowError DivisionResultTooLarge))"
  by (simp add: py_truediv_def)

text \<open>
  C5, amended: for a non-empty list of genuine integers \<open>calculate_average\<close> gives what
  the true division of the sum by the count gives: the binary64 number nearest to the
  exact quotient when that is finite, and the \<open>OverflowError\<close> of the division
  otherwise; never \<open>None\<close>. So \<open>[1,2,3,4]\<close> gives 2.5 and \<open>[0,0,0]\<close> gives 0.0.
\<close>

theorem calculate_average_is_rounded_quotient:
  assumes "xs \<noteq> []"
  shows "calculate_average ip (PList (map PInt xs)) =
           (case round_double (of_int (sum_list xs) / of_nat (length xs)) of
              Fin q \<Rightarrow> Inr (Some (Fin q))
            | _ \<Rightarrow> Inl (OverflowError DivisionResultTooLarge))"
  using assms
  by (simp add: calculate_average_def validate_integer_list_ints py_truediv_round
      split: pyfloat.splits)

theorem calculate_average_is_rounded_quotient_witness:
  "calculate_average cpython_defaults (PList [PInt 1, PInt 2, PInt 3, PInt 4]) = Inr (Some (Fin (5 / 2))) \<and>
   calculate_average cpython_defaults (PList [PInt 0, PInt 0, PInt 0]) = Inr (Some (Fin 0))"
  using calculate_average_is_rounded_quotient [of "[1, 2, 3, 4]" cpython_defaults]
    calculate_average_is_rounded_quotient [of "[0, 0, 0]" cpython_defaults]
  by (simp add: rd_eval)

section \<open>Input that is not a list\<close>

lemma type_error_iff_not_a_list:
  "(\<not> is_list data \<longrightarrow>
      validate_integer_list ip data op = Inl (TypeError (NotAList op (type_name data)))) \<and>
   (\<forall>e. validate_integer_list ip data op = Inl e \<longrightarrow>
      (is_TypeError e \<longleftrightarrow> \<not> is_list data) \<and>
      (is_TypeError e \<longleftrightarrow> kind_of (message_of e) = Some TypeMismatch))"
proof (cases "is_list data")
  case False
  then show ?thesis by (simp add: validate_integer_list_not_list)
next
  case True
  then obtain items where "data = PList items" by (cases data) simp_all
  then show ?thesis using validate_integer_list_errors [of ip items op] by auto
qed

text \<open>
  C6 fails on the code: an input that is not a list does raise the \<open>TypeError\<close> naming
  its type, and no other input does, but not every other failure is a \<open>ValueError\<close>. On
  the list \<open>[float('-inf')]\<close> the exception that leaves the validator is the
  \<open>OverflowError\<close> of \<open>int\<close>, neither a \<open>TypeError\<close> nor a \<open>ValueError\<close>.
\<close>

theorem overflow_error_is_neither_class:
  "validate_integer_list ip (PList [PFloat NegInf]) op =
     Inl (OverflowError CannotConvertInfinityToInteger) \<and>
   \<not> is_TypeError (OverflowError CannotConvertInfinityToInteger) \<and>
   \<not> is_ValueError (OverflowError CannotConvertInfinityToInteger)"
proof -
  have "conversion_attempt op 0 (PFloat NegInf) =
          Inl (OverflowError CannotConvertInfinityToInteger)"
    by (simp add: conversion_attempt_def)
  then have "convert_item op 0 (PFloat NegInf) =
          Inl (OverflowError CannotConvertInfinityToInteger)"
    by (simp add: convert_item_def)
  then show ?thesis by (simp add: validate_integer_list_nonempty)
qed

text \<open>
  C7 fails on the code: \<open>None\<close> is not a list, so the first test of
  \<open>_validate_input_list\<close> raises the \<open>TypeError\<close> naming \<open>NoneType\<close>, for both
  operations; the test \<open>data is None\<close> after it is never reached.
\<close>

theorem none_input_raises_type_error:
  "validate_integer_list ip PNone op = Inl (TypeError (NotAList op ''NoneType'')) \<and>
   sum_numbers ip PNone = Inl (TypeError (NotAList soma ''NoneType'')) \<and>
   calculate_average ip PNone = Inl (TypeError (NotAList media ''NoneType''))"
  by (simp add: sum_numbers_def calculate_average_def validate_integer_list_def
      validate_input_list_def)

section \<open>Elements of other types\<close>







section \<open>Infinite elements\<close>

text \<open>
  C9 fails on the code at an element that \<open>float\<close> reads as an infinity: the
  exception that leaves \<open>sum_numbers([1, "inf", 4])\<close> is the \<open>OverflowError\<close> of
  \<open>int\<close>, whose message names no position.
\<close>

theorem infinity_error_names_no_position:
  "sum_numbers ip (PList [PInt 1, PStr ''inf'', PInt 4]) = Inl (OverflowError CannotConvertInfinityToInteger) \<and>
   position_of CannotConvertInfinityToInteger = None"
  by (simp add: sum_numbers_def validate_integer_list_nonempty convert_item_def
      conversion_attempt_def parse_eval)

text \<open>
  C10 fails on the code: for the strings \<open>inf\<close> and \<open>-inf\<close> and for an infinite
  float, \<open>int(float(item))\<close> raises \<open>OverflowError\<close>, which the handler
  \<open>except ValueError\<close> does not catch and which leaves the validator.
\<close>

theorem infinity_raises_overflow_error:
  "validate_integer_list ip (PList [PStr ''inf'']) op = Inl (OverflowError CannotConvertInfinityToInteger) \<and>
   validate_integer_list ip (PList [PStr ''-inf'']) op = Inl (OverflowError CannotConvertInfinityToInteger) \<and>
   validate_integer_list ip (PList [PFloat PosInf]) op = Inl (OverflowError CannotConvertInfinityToInteger)"
proof -
  have reads: "py_float (PStr ''inf'') = Inr PosInf" "py_float (PStr ''-inf'') = Inr NegInf"
    by (simp_all add: parse_eval)
  have escapes: "convert_item op 0 item = Inl (OverflowError CannotConvertInfinityToInteger)"
    if "py_float item = Inr PosInf \<or> py_float item = Inr NegInf" for item
    using that by (auto simp: convert_item_def conversion_attempt_def)
  have "validate_integer_list ip (PList [item]) op =
          Inl (OverflowError CannotConvertInfinityToInteger)"
    if "isinstance_float_str item" "py_float item = Inr PosInf \<or> py_float item = Inr NegInf"
    for item
    using that escapes [of item] by (cases item) (simp_all add: validate_integer_list_nonempty)
  from this [of "PStr ''inf''"] this [of "PStr ''-inf''"] this [of "PFloat PosInf"] reads
  show ?thesis by simp
qed

end
